theory Spec2Isabelle
  imports Main "HOL-Library.Word"
begin

section \<open>byteme::GzipFileReader over an abstract zlib\<close>

text \<open>
  The class \<^verbatim>\<open>GzipFileReader<B>\<close> of \<^verbatim>\<open>include/byteme/GzipFileReader.hpp\<close> wraps zlib's
  \<^verbatim>\<open>gzFile\<close>. zlib is not part of the repository, so the four functions the class calls
  are a parameter of the model: a record of functions over a handle type \<open>'h\<close>, the state of
  one open \<^verbatim>\<open>gzFile\<close>. The integer types are those of an LP64 platform: \<^verbatim>\<open>int\<close> and
  \<^verbatim>\<open>unsigned\<close> are 32-bit words, \<^verbatim>\<open>size_t\<close> is a 64-bit word, \<^verbatim>\<open>unsigned char\<close> and
  \<^verbatim>\<open>char\<close> are 8-bit words (a \<^verbatim>\<open>char\<close> is read with \<open>sint\<close>, an \<^verbatim>\<open>unsigned char\<close>
  with \<open>uint\<close>).
\<close>

type_synonym byte = "8 word"
type_synonym c_int = "32 word"
type_synonym c_unsigned = "32 word"
type_synonym size_t = "64 word"

subsection \<open>The library interface\<close>

text \<open>
  \<^item> \<open>gzopen path\<close> is \<^verbatim>\<open>gzopen(path, "rb")\<close>; \<open>None\<close> is the null handle.
  \<^item> \<open>gzread h len\<close> is \<^verbatim>\<open>gzread(h, buf, len)\<close>: the \<^verbatim>\<open>int\<close> it returns, the bytes it
    stores from the start of \<^verbatim>\<open>buf\<close> (at most \<open>len\<close> of them are stored), and the handle
    afterwards.
  \<^item> \<open>gzeof h\<close> is \<^verbatim>\<open>gzeof(h)\<close>, an \<^verbatim>\<open>int\<close> used as a truth value.
  \<^item> \<open>gzerror h\<close> is the message \<^verbatim>\<open>gzerror(h, &dummy)\<close> returns.
\<close>

record 'h zlib =
  gzopen :: "string \<Rightarrow> 'h option"
  gzread :: "'h \<Rightarrow> c_unsigned \<Rightarrow> c_int \<times> byte list \<times> 'h"
  gzeof :: "'h \<Rightarrow> c_int"
  gzerror :: "'h \<Rightarrow> string"

subsection \<open>The reader\<close>

text \<open>The template parameter \<^verbatim>\<open>B\<close>: "usually a char or unsigned char".\<close>

datatype elem_type = UChar | Char

text \<open>
  The members of the class, in declaration order, after the template parameter. The member
  \<^verbatim>\<open>buffer_\<close> is \<open>buffer_vec\<close> here (a name cannot end in an underscore).
\<close>

record 'h reader =
  elem :: elem_type
  gz :: 'h
  buffer_vec :: "byte list"
  counter_buffer :: "byte list"
  read :: size_t

text \<open>
  Both \<^verbatim>\<open>throw\<close> statements of the class throw \<^verbatim>\<open>std::runtime_error\<close> with a message.
  The constructor of \<^verbatim>\<open>std::vector\<close> and its \<^verbatim>\<open>resize\<close> throw \<^verbatim>\<open>std::length_error\<close> for a size
  beyond \<^verbatim>\<open>max_size()\<close> and \<^verbatim>\<open>std::bad_alloc\<close> when the free store cannot give the bytes.
\<close>

datatype exn = Runtime_error string | Length_error | Bad_alloc

text \<open>
  \<^verbatim>\<open>max_size()\<close> of a vector of bytes on the LP64 platform is \<^verbatim>\<open>PTRDIFF_MAX\<close>. The free store
  is the number of bytes it can still give; a vector of \<open>n\<close> bytes takes \<open>n\<close> of them, and
  its elements start as zero.
\<close>

definition max_size :: nat where
  "max_size = 2 ^ 63 - 1"

definition vector_of_size :: "nat \<Rightarrow> nat \<Rightarrow> exn + byte list" where
  "vector_of_size free_store n =
     (if max_size < n then Inl Length_error
      else if free_store < n then Inl Bad_alloc
      else Inr (replicate n 0))"

text \<open>
  The constructor, its members initialised in the order of their declaration: \<^verbatim>\<open>gz(path)\<close>
  throws when \<^verbatim>\<open>gzopen\<close> returns the null handle; \<^verbatim>\<open>buffer_(buffer_size)\<close> is a vector of
  \<^verbatim>\<open>buffer_size\<close> zero bytes, or throws; \<^verbatim>\<open>counter_buffer\<close> starts empty; \<^verbatim>\<open>read\<close> is 0. The
  body resizes \<^verbatim>\<open>counter_buffer\<close> to \<^verbatim>\<open>buffer_size\<close> only when \<^verbatim>\<open>B\<close> is \<^verbatim>\<open>char\<close>, which
  takes as many bytes again, or throws. The first argument is the free store at the call.
\<close>

definition GZFile :: "'h zlib \<Rightarrow> string \<Rightarrow> exn + 'h" where
  "GZFile lib path =
     (case gzopen lib path of
        None \<Rightarrow> Inl (Runtime_error (''failed to open file at '' @ [CHR 0x27] @ path @ [CHR 0x27]))
      | Some handle \<Rightarrow> Inr handle)"

definition GzipFileReader ::
    "nat \<Rightarrow> 'h zlib \<Rightarrow> elem_type \<Rightarrow> string \<Rightarrow> size_t \<Rightarrow> exn + 'h reader" where
  "GzipFileReader free_store lib b path buffer_size =
     (case GZFile lib path of
        Inl e \<Rightarrow> Inl e
      | Inr handle \<Rightarrow>
          (case vector_of_size free_store (unat buffer_size) of
             Inl e \<Rightarrow> Inl e
           | Inr buf \<Rightarrow>
               (case (if b = Char
                      then vector_of_size (free_store - unat buffer_size) (unat buffer_size)
                      else Inr []) of
                  Inl e \<Rightarrow> Inl e
                | Inr cb \<Rightarrow>
                    Inr \<lparr>elem = b, gz = handle, buffer_vec = buf, counter_buffer = cb,
                         read = 0\<rparr>)))"

text \<open>
  What a call of \<^verbatim>\<open>operator()\<close> can end in: it returns a boolean, it throws, or it has no
  defined behaviour (\<^verbatim>\<open>std::copy_n\<close> past the end of the vectors). The reader is still
  there after a throw, so that state is kept too.
\<close>

datatype 'h outcome = Returned bool "'h reader" | Thrown exn "'h reader" | Undefined

text \<open>The library calls a call of \<^verbatim>\<open>operator()\<close> makes, in order.\<close>

datatype call = Call_gzread c_unsigned | Call_gzeof | Call_gzerror

text \<open>The bytes \<^verbatim>\<open>gzread\<close> stores overwrite the start of the buffer.\<close>

definition store :: "byte list \<Rightarrow> byte list \<Rightarrow> byte list" where
  "store ws buf = ws @ drop (length ws) buf"

text \<open>
  \<^verbatim>\<open>std::copy_n(src, n, dst)\<close> on two vectors: defined when both hold \<open>n\<close> elements. The
  conversion from \<^verbatim>\<open>unsigned char\<close> to \<^verbatim>\<open>char\<close> keeps the eight bits.
\<close>

definition copy_n :: "byte list \<Rightarrow> nat \<Rightarrow> byte list \<Rightarrow> byte list option" where
  "copy_n src n dst =
     (if n \<le> length src \<and> n \<le> length dst then Some (take n src @ drop n dst) else None)"

text \<open>
  \<^verbatim>\<open>operator()\<close>. \<^verbatim>\<open>buffer_.size()\<close> is a \<^verbatim>\<open>size_t\<close> passed for an \<^verbatim>\<open>unsigned\<close>, and the
  \<^verbatim>\<open>int\<close> that \<^verbatim>\<open>gzread\<close> returns is assigned to the \<^verbatim>\<open>size_t\<close> member \<^verbatim>\<open>read\<close>: the first
  conversion truncates, the second sign-extends.
\<close>

definition gzread_len :: "'h reader \<Rightarrow> c_unsigned" where
  "gzread_len s = ucast (word_of_nat (length (buffer_vec s)) :: size_t)"

definition operator_call :: "'h zlib \<Rightarrow> 'h reader \<Rightarrow> call list \<times> 'h outcome" where
  "operator_call lib s =
     (let len = gzread_len s;
          (r, ws, h) = gzread lib (gz s) len;
          s1 = s\<lparr>gz := h, buffer_vec := store (take (unat len) ws) (buffer_vec s), read := scast r\<rparr>
      in case (if elem s1 = Char
               then copy_n (buffer_vec s1) (unat (read s1)) (counter_buffer s1)
               else Some (counter_buffer s1)) of
           None \<Rightarrow> ([Call_gzread len], Undefined)
         | Some cb \<Rightarrow>
             (let s2 = s1\<lparr>counter_buffer := cb\<rparr>
              in if read s2 = 0 then
                   (if gzeof lib h = 0
                    then ([Call_gzread len, Call_gzeof, Call_gzerror],
                          Thrown (Runtime_error (gzerror lib h)) s2)
                    else ([Call_gzread len, Call_gzeof], Returned False s2))
                 else ([Call_gzread len], Returned True s2)))"

definition advance :: "'h zlib \<Rightarrow> 'h reader \<Rightarrow> 'h outcome" where
  "advance lib s = snd (operator_call lib s)"

definition advance_calls :: "'h zlib \<Rightarrow> 'h reader \<Rightarrow> call list" where
  "advance_calls lib s = fst (operator_call lib s)"

text \<open>
  \<^verbatim>\<open>buffer()\<close> returns a \<^verbatim>\<open>const B*\<close> to the start of one of the two vectors: the model
  returns which vector, typed, with its elements. \<^verbatim>\<open>available()\<close> returns \<^verbatim>\<open>read\<close>.
\<close>

datatype view = AsUChar (elems: "byte list") | AsChar (elems: "byte list")

definition buffer :: "'h reader \<Rightarrow> view" where
  "buffer s = (if elem s = Char then AsChar (counter_buffer s) else AsUChar (buffer_vec s))"

definition available :: "'h reader \<Rightarrow> size_t" where
  "available s = read s"

text \<open>The values a caller reads through the pointer.\<close>

fun values_of :: "view \<Rightarrow> int list" where
  "values_of (AsUChar bs) = map uint bs"
| "values_of (AsChar bs) = map sint bs"

subsection \<open>Reading a whole file\<close>

text \<open>
  The protocol of the documentation of \<^verbatim>\<open>operator()\<close>: "To read the entire file, this
  function should be called repeatedly until false is returned", where \<^verbatim>\<open>buffer()\<close> and
  \<^verbatim>\<open>available()\<close> are valid on the last call too. After each call the caller takes the
  first \<^verbatim>\<open>available()\<close> elements at \<^verbatim>\<open>buffer()\<close>; reading more elements than the vector
  holds has no defined behaviour.
\<close>

definition chunk :: "'h reader \<Rightarrow> byte list option" where
  "chunk s =
     (let v = elems (buffer s); n = unat (available s)
      in if n \<le> length v then Some (take n v) else None)"

datatype result = Content "byte list" | Raised exn | No_behaviour

text \<open>The loop ends only when a call returns false or fails: \<open>None\<close> is a loop that never ends.\<close>

partial_function (option) read_all :: "'h zlib \<Rightarrow> 'h reader \<Rightarrow> byte list \<Rightarrow> result option" where
  "read_all lib s acc =
     (case advance lib s of
        Undefined \<Rightarrow> Some No_behaviour
      | Thrown e s' \<Rightarrow> Some (Raised e)
      | Returned again s' \<Rightarrow>
          (case chunk s' of
             None \<Rightarrow> Some No_behaviour
           | Some c \<Rightarrow> if again then read_all lib s' (acc @ c) else Some (Content (acc @ c))))"

text \<open>
  A handle \<open>h\<close> serves the content \<open>cs\<close> to requests of \<open>len\<close> bytes: while content is left,
  a read returns a positive count of at most \<open>len\<close> and stores that many of the next bytes;
  once none is left, a read returns 0 and the end-of-file indicator is set.
\<close>

function serves :: "'h zlib \<Rightarrow> c_unsigned \<Rightarrow> 'h \<Rightarrow> byte list \<Rightarrow> bool" where
  "serves lib len h cs =
     (let r = fst (gzread lib h len); ws = fst (snd (gzread lib h len));
          h' = snd (snd (gzread lib h len))
      in if cs = [] then r = 0 \<and> gzeof lib h' \<noteq> 0
         else if 0 < sint r \<and> unat r \<le> unat len \<and> unat r \<le> length cs
                 \<and> take (unat r) ws = take (unat r) cs
         then serves lib len h' (drop (unat r) cs)
         else False)"
  by pat_completeness auto
termination
proof (relation "measure (\<lambda>(lib, len, h, cs). length cs)")
  show "wf (measure (\<lambda>(lib :: 'h zlib, len :: c_unsigned, h :: 'h, cs :: byte list). length cs))"
    by simp
next
  fix lib :: "'h zlib" and len :: c_unsigned and h :: 'h and cs :: "byte list" and r ws h'
  assume r: "r = fst (gzread lib h len)" and ne: "cs \<noteq> []"
    and ok: "0 < sint r \<and> unat r \<le> unat len \<and> unat r \<le> length cs
              \<and> take (unat r) ws = take (unat r) cs"
  from ok have "r \<noteq> 0" by auto
  then have "0 < unat r" by (simp add: unat_gt_0)
  with ne show "((lib, len, h', drop (unat r) cs), (lib, len, h, cs))
      \<in> measure (\<lambda>(lib, len, h, cs). length cs)"
    by simp
qed


subsection \<open>The observers as operations\<close>

text \<open>
  \<^verbatim>\<open>buffer()\<close> and \<^verbatim>\<open>available()\<close> are \<^verbatim>\<open>const\<close> member functions. As operations on the
  reader they return their answer and the reader they leave behind.
\<close>

datatype query = Buffer | Available

datatype answer = Pointer view | Count size_t

fun ask :: "query \<Rightarrow> 'h reader \<Rightarrow> answer \<times> 'h reader" where
  "ask Buffer s = (Pointer (buffer s), s)"
| "ask Available s = (Count (available s), s)"

fun observe :: "query list \<Rightarrow> 'h reader \<Rightarrow> answer list \<times> 'h reader" where
  "observe [] s = ([], s)"
| "observe (q # qs) s =
     (let (a, s') = ask q s; (as, s'') = observe qs s' in (a # as, s''))"

subsection \<open>Two libraries to run the reader on\<close>

text \<open>
  Modelled from the spec: the decompression library, which the repository only calls. The
  spec lists its interface (open, read, is-eof, last-error); the behaviour below is the one
  the zlib manual documents for \<^verbatim>\<open>gzopen\<close>, \<^verbatim>\<open>gzread\<close>, \<^verbatim>\<open>gzeof\<close> and \<^verbatim>\<open>gzerror\<close>.
  A file is described by what it decompresses to. \<^verbatim>\<open>gzopen\<close> fails only when the file
  cannot be opened; a file that is not in gzip format is opened and read as it is.
  \<^verbatim>\<open>gzread\<close> returns the number of bytes read, fewer than \<open>len\<close> at the end of the file,
  or -1 for an error, also when \<open>len\<close> does not fit in an \<^verbatim>\<open>int\<close>. The end-of-file
  indicator is set when a read tried to go past the end and came up short.
\<close>

datatype gzfile = Gzip "byte list" | Damaged_gzip | Not_gzip "byte list"

record gzstate =
  pending :: "byte list"
  damaged :: bool
  past :: c_int
  msg :: string

definition open_file :: "gzfile \<Rightarrow> gzstate" where
  "open_file f =
     (case f of
        Gzip bs \<Rightarrow> \<lparr>pending = bs, damaged = False, past = 0, msg = []\<rparr>
      | Damaged_gzip \<Rightarrow> \<lparr>pending = [], damaged = True, past = 0, msg = []\<rparr>
      | Not_gzip bs \<Rightarrow> \<lparr>pending = bs, damaged = False, past = 0, msg = []\<rparr>)"

definition zlib_read :: "gzstate \<Rightarrow> c_unsigned \<Rightarrow> c_int \<times> byte list \<times> gzstate" where
  "zlib_read h len =
     (if msg h \<noteq> [] then (- 1, [], h)
      else if sint len < 0 then (- 1, [], h\<lparr>msg := ''request does not fit in an int''\<rparr>)
      else if len = 0 then (0, [], h)
      else if damaged h then (- 1, [], h\<lparr>msg := ''invalid block type''\<rparr>)
      else (let n = min (unat len) (length (pending h))
            in (word_of_nat n, take n (pending h),
                h\<lparr>pending := drop n (pending h),
                  past := (if n < unat len then 1 else past h)\<rparr>)))"

definition zlib_on :: "(string \<Rightarrow> gzfile option) \<Rightarrow> gzstate zlib" where
  "zlib_on fs =
     \<lparr>gzopen = (\<lambda>path. map_option open_file (fs path)),
      gzread = zlib_read, gzeof = past, gzerror = msg\<rparr>"

text \<open>
  A scripted stand-in for the library, as a test of the class would use: a handle is the
  list of the replies still to give, each the return value of the read, the bytes it
  stores, the end-of-file indicator and the error message afterwards.
\<close>

type_synonym reply = "c_int \<times> byte list \<times> c_int \<times> string"

record script =
  replies :: "reply list"
  eof_now :: c_int
  error_now :: string

definition scripted_read :: "script \<Rightarrow> c_unsigned \<Rightarrow> c_int \<times> byte list \<times> script" where
  "scripted_read h len =
     (case replies h of
        [] \<Rightarrow> (0, [], h\<lparr>eof_now := 1\<rparr>)
      | (r, ws, e, m) # rs \<Rightarrow> (r, ws, \<lparr>replies = rs, eof_now = e, error_now = m\<rparr>))"

definition scripted :: "(string \<Rightarrow> reply list option) \<Rightarrow> script zlib" where
  "scripted fs =
     \<lparr>gzopen = (\<lambda>path. map_option (\<lambda>rs. \<lparr>replies = rs, eof_now = 0, error_now = []\<rparr>) (fs path)),
      gzread = scripted_read, gzeof = eof_now, gzerror = error_now\<rparr>"

subsection \<open>Inputs for concrete runs\<close>

text \<open>
  Ten bytes, "ABCDEFGHIJ", and a disk with three files: a gzip file that decompresses to
  them, a gzip file with damaged data, and a text file that is not in gzip format.
\<close>

definition letters :: "byte list" where
  "letters = [0x41, 0x42, 0x43, 0x44, 0x45, 0x46, 0x47, 0x48, 0x49, 0x4A]"

definition disk :: "string \<Rightarrow> gzfile option" where
  "disk = [''letters.gz'' \<mapsto> Gzip letters, ''bad.gz'' \<mapsto> Damaged_gzip,
           ''notes.txt'' \<mapsto> Not_gzip [0x68, 0x69]]"

text \<open>
  Both vectors of a \<^verbatim>\<open>GzipFileReader<char>\<close> have the size given at construction; the
  class never resizes them afterwards.
\<close>

definition vectors_sized :: "'h reader \<Rightarrow> bool" where
  "vectors_sized s \<longleftrightarrow>
     (elem s = Char \<longrightarrow> length (counter_buffer s) = length (buffer_vec s))"

declare serves.simps [simp del]


section \<open>Conversions between the integer types\<close>

lemma sint_c_int_bounds: "- (2 ^ 31) \<le> sint (r :: c_int) \<and> sint r < 2 ^ 31"
proof -
  have "LENGTH(32) - 1 = (31 :: nat)" by simp
  with sint_ge [of r] sint_lt [of r] show ?thesis by metis
qed

lemma unat_scast: "unat (scast (r :: c_int) :: size_t) = nat (sint r mod 2 ^ 64)"
proof -
  have "uint (word_of_int (sint r) :: size_t) = sint r mod 2 ^ LENGTH(64)"
    by (rule uint_word_of_int)
  then show ?thesis
    unfolding scast_eq unat_eq_nat_uint by simp
qed

lemma uint_sint_c_int: "uint (r :: c_int) = sint r mod 2 ^ 32"
proof -
  have "uint (word_of_int (sint r) :: c_int) = sint r mod 2 ^ LENGTH(32)"
    by (rule uint_word_of_int)
  moreover have "(word_of_int (sint r) :: c_int) = r" by simp
  ultimately show ?thesis by simp
qed

lemma pow_31_less: "(2 :: int) ^ 31 < 2 ^ 32" "(2 :: int) ^ 31 < 2 ^ 64"
  by simp_all

text \<open>A count that is not negative keeps its value in \<^verbatim>\<open>read\<close>.\<close>

lemma unat_scast_nonneg:
  assumes "0 \<le> sint (r :: c_int)" shows "unat (scast r :: size_t) = unat r"
proof -
  from sint_c_int_bounds [of r] pow_31_less
  have "sint r < 2 ^ 32" and "sint r < 2 ^ 64" by linarith+
  with assms have "sint r mod 2 ^ 64 = sint r" and "sint r mod 2 ^ 32 = sint r"
    by (simp_all only: mod_pos_pos_trivial)
  then have "unat (scast r :: size_t) = nat (sint r)" and "uint r = sint r"
    using unat_scast [of r] uint_sint_c_int [of r] by (simp_all only:)
  then show ?thesis
    by (simp only: unat_eq_nat_uint [of r])
qed

text \<open>A negative return value becomes a count just below \<open>2 ^ 64\<close>.\<close>

lemma unat_scast_neg:
  assumes "sint (r :: c_int) < 0"
  shows "int (unat (scast r :: size_t)) = 2 ^ 64 + sint r"
proof -
  from assms sint_c_int_bounds [of r] pow_31_less
  have "0 \<le> sint r + 2 ^ 64" and "sint r + 2 ^ 64 < 2 ^ 64" by linarith+
  then have "(sint r + 2 ^ 64) mod 2 ^ 64 = sint r + 2 ^ 64"
    by (rule mod_pos_pos_trivial)
  moreover have "(sint r + 2 ^ 64) mod 2 ^ 64 = sint r mod 2 ^ 64"
    by (rule mod_add_self2)
  ultimately have "sint r mod 2 ^ 64 = sint r + 2 ^ 64" by simp
  moreover have "0 \<le> sint r + (2::int) ^ 64" by fact
  ultimately show ?thesis by (simp only: unat_scast int_nat_eq if_True add.commute)
qed

lemma scast_eq_0: "(scast (r :: c_int) :: size_t) = 0 \<longleftrightarrow> r = 0"
proof
  assume z: "(scast r :: size_t) = 0"
  have "sint r = 0"
  proof (cases "0 \<le> sint r")
    case True
    from z have "unat (scast r :: size_t) = 0" by simp
    with True have "unat r = 0" by (simp only: unat_scast_nonneg)
    then have "r = 0" by (simp add: unat_eq_0)
    then show ?thesis by simp
  next
    case False
    then have neg: "sint r < 0" by simp
    from z have "int (unat (scast r :: size_t)) = 0" by simp
    with unat_scast_neg [OF neg] have "sint r = - (2 ^ 64)" by linarith
    with sint_c_int_bounds [of r] pow_31_less show ?thesis by linarith
  qed
  then show "r = 0" by (simp only: signed_eq_0_iff)
next
  assume "r = 0" then show "(scast r :: size_t) = 0" by simp
qed

section \<open>One call of operator()\<close>

lemma gzread_len_le: "unat (gzread_len s) \<le> length (buffer_vec s)"
proof -
  have "unat (gzread_len s) \<le> unat (word_of_nat (length (buffer_vec s)) :: size_t)"
    unfolding gzread_len_def by (simp add: unsigned_ucast_eq)
  also have "\<dots> \<le> length (buffer_vec s)"
    by (simp add: unat_of_nat)
  finally show ?thesis .
qed

lemma length_store: "length ws \<le> length buf \<Longrightarrow> length (store ws buf) = length buf"
  by (simp add: store_def)

text \<open>\<^verbatim>\<open>buffer_\<close> keeps its size: the library is asked for no more than it holds.\<close>

lemma length_stored:
  "length (store (take (unat (gzread_len s)) ws) (buffer_vec s)) = length (buffer_vec s)"
  using gzread_len_le [of s] by (simp add: length_store)

lemma take_store: "n \<le> length ws \<Longrightarrow> take n (store ws buf) = take n ws"
  by (simp add: store_def)

lemma copy_n_0: "copy_n src 0 dst = Some dst"
  by (simp add: copy_n_def)

lemma replicate_4: "replicate 4 x = [x, x, x, x]"
  by (simp add: numeral_eq_Suc)

lemma operator_call_unfold:
  assumes "gzread lib (gz s) (gzread_len s) = (r, ws, h)"
  shows "operator_call lib s =
     (let len = gzread_len s;
          s1 = s\<lparr>gz := h, buffer_vec := store (take (unat len) ws) (buffer_vec s), read := scast r\<rparr>
      in case (if elem s = Char
               then copy_n (buffer_vec s1) (unat (scast r :: size_t)) (counter_buffer s)
               else Some (counter_buffer s)) of
           None \<Rightarrow> ([Call_gzread len], Undefined)
         | Some cb \<Rightarrow>
             (let s2 = s1\<lparr>counter_buffer := cb\<rparr>
              in if r = 0 then
                   (if gzeof lib h = 0
                    then ([Call_gzread len, Call_gzeof, Call_gzerror],
                          Thrown (Runtime_error (gzerror lib h)) s2)
                    else ([Call_gzread len, Call_gzeof], Returned False s2))
                 else ([Call_gzread len], Returned True s2)))"
  using assms by (simp add: operator_call_def Let_def scast_eq_0 split: option.split)

section \<open>What construction gives\<close>

lemma fits_max_size: "n \<le> 4294967296 \<Longrightarrow> \<not> max_size < n"
  by (simp add: max_size_def)

lemma GzipFileReader_Inr:
  assumes "GzipFileReader m lib b path n = Inr s"
  shows "elem s = b" and "gzopen lib path = Some (gz s)"
    and "buffer_vec s = replicate (unat n) 0"
    and "counter_buffer s = (if b = Char then replicate (unat n) 0 else [])"
    and "read s = 0"
  using assms
  by (auto simp: GzipFileReader_def GZFile_def vector_of_size_def
           split: option.splits sum.splits if_splits)

text \<open>
  Construction gives a reader exactly when the file opens and both vectors can be had:
  the size is within \<^verbatim>\<open>max_size()\<close>, and the free store holds it once, or twice for
  \<^verbatim>\<open>char\<close>.
\<close>

lemma GzipFileReader_Inr_iff:
  "(\<exists>s. GzipFileReader m lib b path n = Inr s) \<longleftrightarrow>
     gzopen lib path \<noteq> None \<and> unat n \<le> max_size
     \<and> (if b = Char then 2 * unat n else unat n) \<le> m"
  by (auto simp: GzipFileReader_def GZFile_def vector_of_size_def
           split: option.splits sum.splits if_splits)

section \<open>Reading a whole file\<close>

lemma advance_serving_step:
  assumes g: "gzread lib (gz s) (gzread_len s) = (r, ws, h)"
    and pos: "0 < sint r" and le: "unat r \<le> unat (gzread_len s)"
    and cs: "unat r \<le> length cs" and eq: "take (unat r) ws = take (unat r) cs"
    and inv: "vectors_sized s"
  shows "\<exists>s'. advance lib s = Returned True s' \<and> chunk s' = Some (take (unat r) cs)
           \<and> gz s' = h \<and> gzread_len s' = gzread_len s \<and> vectors_sized s'"
proof -
  let ?n = "unat r"
  let ?buf = "store (take (unat (gzread_len s)) ws) (buffer_vec s)"
  from pos have n: "unat (scast r :: size_t) = ?n" by (simp add: unat_scast_nonneg)
  from pos have nz: "r \<noteq> 0" by auto
  have len: "length ?buf = length (buffer_vec s)" by (rule length_stored)
  from le gzread_len_le [of s] have nb: "?n \<le> length (buffer_vec s)" by simp
  from eq cs have "length (take ?n ws) = ?n" by simp
  then have nws: "?n \<le> length ws" by simp
  with le have "?n \<le> length (take (unat (gzread_len s)) ws)" by simp
  then have "take ?n ?buf = take ?n (take (unat (gzread_len s)) ws)" by (rule take_store)
  also from le have "\<dots> = take ?n ws" by (simp add: min_absorb2)
  finally have tk: "take ?n ?buf = take ?n cs" using eq by simp
  show ?thesis
  proof (cases "elem s = Char")
    case True
    with inv have cl: "length (counter_buffer s) = length (buffer_vec s)"
      by (simp add: vectors_sized_def)
    with nb len
    have cp: "copy_n ?buf ?n (counter_buffer s) = Some (take ?n ?buf @ drop ?n (counter_buffer s))"
      by (simp add: copy_n_def)
    show ?thesis
      unfolding advance_def operator_call_unfold [OF g]
      using True nz n cp tk nb cl len cs
      by (simp add: Let_def chunk_def buffer_def available_def vectors_sized_def gzread_len_def)
  next
    case False
    show ?thesis
      unfolding advance_def operator_call_unfold [OF g]
      using False nz n tk nb len cs
      by (simp add: Let_def chunk_def buffer_def available_def vectors_sized_def gzread_len_def)
  qed
qed

lemma advance_serving_end:
  assumes g: "gzread lib (gz s) (gzread_len s) = (0, ws, h)" and eof: "gzeof lib h \<noteq> 0"
  shows "\<exists>s'. advance lib s = Returned False s' \<and> chunk s' = Some []"
  unfolding advance_def operator_call_unfold [OF g]
  using eof by (simp add: Let_def chunk_def buffer_def available_def copy_n_0)

text \<open>
  From any reader whose handle serves \<open>cs\<close>, the loop ends and has appended \<open>cs\<close> to what
  it had collected: computation induction over \<open>serves\<close>, the reader and the accumulator
  generalised.
\<close>

lemma read_all_serves:
  "serves lib len h cs \<Longrightarrow> gz s = h \<Longrightarrow> gzread_len s = len \<Longrightarrow> vectors_sized s
   \<Longrightarrow> read_all lib s acc = Some (Content (acc @ cs))"
proof (induction lib len h cs arbitrary: s acc rule: serves.induct)
  case (1 lib len h cs)
  obtain r ws h' where g: "gzread lib h len = (r, ws, h')"
    by (cases "gzread lib h len")
  with "1.prems" have g': "gzread lib (gz s) (gzread_len s) = (r, ws, h')" by simp
  have unf: "serves lib len h cs =
      (if cs = [] then r = 0 \<and> gzeof lib h' \<noteq> 0
       else if 0 < sint r \<and> unat r \<le> unat len \<and> unat r \<le> length cs
                 \<and> take (unat r) ws = take (unat r) cs
       then serves lib len h' (drop (unat r) cs) else False)"
    using g by (subst serves.simps) (simp add: Let_def)
  show ?case
  proof (cases "cs = []")
    case True
    with "1.prems"(1) unf have "r = 0" and "gzeof lib h' \<noteq> 0"
      by simp_all
    with g' obtain s' where "advance lib s = Returned False s'" and "chunk s' = Some []"
      using advance_serving_end [of lib s ws h'] by auto
    with True show ?thesis
      by (subst read_all.simps) simp
  next
    case False
    with "1.prems"(1) unf
    have ok: "0 < sint r \<and> unat r \<le> unat len \<and> unat r \<le> length cs
          \<and> take (unat r) ws = take (unat r) cs"
      and rest: "serves lib len h' (drop (unat r) cs)"
      by (simp_all split: if_splits)
    from ok "1.prems" obtain s' where adv: "advance lib s = Returned True s'"
      and ch: "chunk s' = Some (take (unat r) cs)" and h': "gz s' = h'"
      and l': "gzread_len s' = len" and v': "vectors_sized s'"
      using advance_serving_step [OF g', of cs] by auto
    from g have "r = fst (gzread lib h len)" "ws = fst (snd (gzread lib h len))"
      "h' = snd (snd (gzread lib h len))" by simp_all
    from "1.IH" [OF this False ok rest h' l' v']
    have "read_all lib s' (acc @ take (unat r) cs)
        = Some (Content ((acc @ take (unat r) cs) @ drop (unat r) cs))" .
    with adv ch show ?thesis
      by (subst read_all.simps) simp
  qed
qed

text \<open>
  For a reader just constructed, of either element type, on a handle that serves the
  content \<open>cs\<close> to the requests the reader makes, the loop ends and its result is \<open>cs\<close>.
\<close>

lemma read_all_reconstructs_content:
  assumes "GzipFileReader m lib b path buffer_size = Inr s"
    and "serves lib (ucast buffer_size) (gz s) cs"
  shows "read_all lib s [] = Some (Content cs)"
proof -
  from GzipFileReader_Inr [OF assms(1)]
  have "gzread_len s = ucast buffer_size" and "vectors_sized s"
    by (simp_all add: gzread_len_def vectors_sized_def)
  with assms(2) show ?thesis
    using read_all_serves [of lib "ucast buffer_size" "gz s" cs s "[]"] by simp
qed

section \<open>The library model serves every gzip file\<close>

lemma sint_pos_unat:
  assumes "0 < sint (len :: c_unsigned)"
  shows "int (unat len) = sint len"
proof -
  from assms sint_c_int_bounds [of len] pow_31_less
  have "0 \<le> sint len" and "sint len < 2 ^ 32" by linarith+
  then have "sint len mod 2 ^ 32 = sint len" by (rule mod_pos_pos_trivial)
  then have "uint len = sint len" by (simp only: uint_sint_c_int)
  then show ?thesis by simp
qed

lemma word_of_nat_small:
  assumes "n \<le> unat (len :: c_unsigned)" and "0 < sint len"
  shows "unat (word_of_nat n :: c_int) = n" and "sint (word_of_nat n :: c_int) = int n"
proof -
  let ?r = "word_of_nat n :: c_int"
  from assms(1) show u: "unat ?r = n" by (rule le_unat_uoi)
  have "uint ?r = int (unat ?r)" by simp
  then have ui: "uint ?r = int n" by (simp only: u)
  from assms(1) have "int n \<le> int (unat len)" by (simp only: of_nat_le_iff)
  with sint_pos_unat [OF assms(2)] sint_c_int_bounds [of len]
  have small: "int n < 2 ^ 31" by linarith
  have "0 \<le> sint ?r"
  proof (rule ccontr)
    assume "\<not> 0 \<le> sint ?r"
    with sint_c_int_bounds [of ?r] have "0 \<le> sint ?r + 2 ^ 32" and "sint ?r + 2 ^ 32 < 2 ^ 32"
      using pow_31_less by linarith+
    then have "(sint ?r + 2 ^ 32) mod 2 ^ 32 = sint ?r + 2 ^ 32" by (rule mod_pos_pos_trivial)
    moreover have "(sint ?r + 2 ^ 32) mod 2 ^ 32 = sint ?r mod 2 ^ 32" by (rule mod_add_self2)
    ultimately have "uint ?r = sint ?r + 2 ^ 32" by (simp only: uint_sint_c_int)
    moreover have "(2 :: int) ^ 32 = 2 * 2 ^ 31" by simp
    ultimately show False using ui sint_c_int_bounds [of ?r] small by linarith
  qed
  moreover from sint_c_int_bounds [of ?r] pow_31_less have "sint ?r < 2 ^ 32" by linarith
  ultimately have "sint ?r mod 2 ^ 32 = sint ?r" by (rule mod_pos_pos_trivial)
  with ui show "sint ?r = int n" by (simp only: uint_sint_c_int)
qed

text \<open>
  A handle of the library model that has met no error serves what is left of its file to
  every request length that is positive as an \<^verbatim>\<open>int\<close>: induction on the length of what is
  left.
\<close>

lemma zlib_on_serves:
  assumes len: "0 < sint len"
  shows "msg h = [] \<Longrightarrow> \<not> damaged h \<Longrightarrow> pending h = cs \<Longrightarrow> serves (zlib_on fs) len h cs"
proof (induction cs arbitrary: h rule: length_induct)
  case (1 cs)
  let ?n = "min (unat len) (length cs)"
  let ?h = "h\<lparr>pending := drop ?n cs, past := (if ?n < unat len then 1 else past h)\<rparr>"
  from len have nz: "len \<noteq> 0" and nneg: "\<not> sint len < 0" by auto
  from sint_pos_unat [OF len] len have ul: "0 < unat len" by linarith
  have "?n \<le> unat len" by simp
  note small = word_of_nat_small [OF this len]
  from "1.prems" nz nneg
  have rd: "gzread (zlib_on fs) h len = (word_of_nat ?n, take ?n cs, ?h)"
    by (simp add: zlib_on_def zlib_read_def Let_def)
  show ?case
  proof (cases "cs = []")
    case True
    with ul show ?thesis
      by (subst serves.simps) (simp add: rd Let_def, simp add: zlib_on_def)
  next
    case False
    with ul have pos: "0 < ?n" by simp
    then have shorter: "length (drop ?n cs) < length cs" using False by simp
    from "1.prems" have "msg ?h = []" and "\<not> damaged ?h" and "pending ?h = drop ?n cs"
      by simp_all
    with "1.IH" shorter have rest: "serves (zlib_on fs) len ?h (drop ?n cs)" by blast
    from pos small have "0 < sint (word_of_nat ?n :: c_int)" by simp
    with small rest False show ?thesis
      by (subst serves.simps) (simp add: rd Let_def)
  qed
qed

text \<open>
  So on the library model the loop returns the content of every gzip file, for every
  capacity that can be allocated and whose low 32 bits are a positive \<^verbatim>\<open>int\<close>: every
  capacity from 1 to 2147483647 that the free store holds.
\<close>

lemma zlib_on_round_trip:
  assumes "fs path = Some (Gzip cs)" and "0 < sint (ucast buffer_size :: c_unsigned)"
    and "unat buffer_size \<le> max_size"
    and "(if b = Char then 2 * unat buffer_size else unat buffer_size) \<le> m"
  shows "\<exists>s. GzipFileReader m (zlib_on fs) b path buffer_size = Inr s
     \<and> read_all (zlib_on fs) s [] = Some (Content cs)"
proof -
  from assms(1) have "gzopen (zlib_on fs) path \<noteq> None"
    by (simp add: zlib_on_def)
  with assms(3,4) obtain s where ctor: "GzipFileReader m (zlib_on fs) b path buffer_size = Inr s"
    using GzipFileReader_Inr_iff [of m "zlib_on fs" b path buffer_size] by blast
  from GzipFileReader_Inr(2) [OF ctor] assms(1)
  have h: "gz s = \<lparr>pending = cs, damaged = False, past = 0, msg = []\<rparr>"
    by (simp add: zlib_on_def open_file_def)
  have "serves (zlib_on fs) (ucast buffer_size) (gz s) cs"
    by (rule zlib_on_serves [OF assms(2)]) (simp_all add: h)
  from read_all_reconstructs_content [OF ctor this] ctor show ?thesis by blast
qed

section \<open>A capacity that does not fit the request\<close>

text \<open>
  C1, at an input where it fails. The file \<^verbatim>\<open>letters.gz\<close> is a valid gzip file of ten
  bytes, and a \<^verbatim>\<open>GzipFileReader<unsigned char>\<close> of capacity 4294967296 on it can be
  constructed. \<^verbatim>\<open>buffer_.size()\<close> is passed to \<^verbatim>\<open>gzread\<close> for an \<^verbatim>\<open>unsigned\<close>, where it
  is 0: the first call reads no byte, the end-of-file indicator is clear, and the call
  throws with the empty message of a library that has met no error. The loop ends with
  that exception and not with the content of the file.
\<close>

theorem read_all_truncated_capacity:
  "disk ''letters.gz'' = Some (Gzip letters)
   \<and> GzipFileReader 8589934592 (zlib_on disk) UChar ''letters.gz'' 4294967296 =
       Inr \<lparr>elem = UChar, gz = \<lparr>pending = letters, damaged = False, past = 0, msg = []\<rparr>,
            buffer_vec = replicate 4294967296 0, counter_buffer = [], read = 0\<rparr>
   \<and> gzread_len
        \<lparr>elem = UChar, gz = \<lparr>pending = letters, damaged = False, past = 0, msg = []\<rparr>,
         buffer_vec = replicate 4294967296 0, counter_buffer = [], read = 0\<rparr> = 0
   \<and> read_all (zlib_on disk)
        \<lparr>elem = UChar, gz = \<lparr>pending = letters, damaged = False, past = 0, msg = []\<rparr>,
         buffer_vec = replicate 4294967296 0, counter_buffer = [], read = 0\<rparr> []
      = Some (Raised (Runtime_error []))
   \<and> read_all (zlib_on disk)
        \<lparr>elem = UChar, gz = \<lparr>pending = letters, damaged = False, past = 0, msg = []\<rparr>,
         buffer_vec = replicate 4294967296 0, counter_buffer = [], read = 0\<rparr> []
      \<noteq> Some (Content letters)"
proof -
  let ?s = "\<lparr>elem = UChar, gz = \<lparr>pending = letters, damaged = False, past = 0, msg = []\<rparr>,
             buffer_vec = replicate 4294967296 (0 :: byte), counter_buffer = [],
             read = 0 :: size_t\<rparr>"
  have f: "disk ''letters.gz'' = Some (Gzip letters)"
    by (simp add: disk_def)
  have ctor: "GzipFileReader 8589934592 (zlib_on disk) UChar ''letters.gz'' 4294967296 = Inr ?s"
    by (simp add: GzipFileReader_def GZFile_def vector_of_size_def fits_max_size zlib_on_def
          disk_def open_file_def)
  have len: "gzread_len ?s = 0"
    by (simp add: gzread_len_def)
  have adv: "advance (zlib_on disk) ?s = Thrown (Runtime_error []) ?s"
    by (simp add: advance_def operator_call_def len zlib_on_def zlib_read_def store_def Let_def)
  have run: "read_all (zlib_on disk) ?s [] = Some (Raised (Runtime_error []))"
    by (subst read_all.simps) (simp add: adv)
  from f ctor len run show ?thesis by simp
qed

section \<open>The three ways a call ends\<close>

text \<open>
  When \<^verbatim>\<open>gzread\<close> returns a count that is not negative, a call of \<^verbatim>\<open>operator()\<close> with
  defined behaviour keeps that count and ends in the way the count and the end-of-file
  indicator decide: true for a positive count; for a count of zero, false when the handle
  reports the end of the file and an exception with the library's message when it does
  not.
\<close>

lemma advance_on_count:
  assumes g: "gzread lib (gz s) (gzread_len s) = (r, ws, h)" and nn: "0 \<le> sint r"
    and d: "advance lib s \<noteq> Undefined"
  shows "\<exists>s'. gz s' = h \<and> unat (available s') = unat r
     \<and> advance lib s =
         (if 0 < sint r then Returned True s'
          else if gzeof lib h \<noteq> 0 then Returned False s'
          else Thrown (Runtime_error (gzerror lib h)) s')"
proof -
  from nn have "0 < sint r \<longleftrightarrow> r \<noteq> 0"
    by (cases "r = 0") (auto simp: signed_eq_0_iff order_less_le)
  with d unat_scast_nonneg [OF nn] show ?thesis
    unfolding advance_def operator_call_unfold [OF g]
    by (auto simp: Let_def available_def copy_n_0 split: option.splits if_splits)
qed

text \<open>
  C2, at an input where it fails: a \<^verbatim>\<open>GzipFileReader<unsigned char>\<close> of capacity 4 on a
  gzip file with damaged data, at its first call. \<^verbatim>\<open>gzread\<close> returns -1 and stores no
  byte, and the end-of-file indicator is clear: no bytes were produced and the stream has
  not ended, yet the call does not throw with the library's message. It returns true.
\<close>

theorem advance_on_error_return:
  "gzread_len
     \<lparr>elem = UChar, gz = \<lparr>pending = [], damaged = True, past = 0, msg = []\<rparr>,
      buffer_vec = [0, 0, 0, 0], counter_buffer = [], read = 0\<rparr> = 4
   \<and> gzread (zlib_on disk) \<lparr>pending = [], damaged = True, past = 0, msg = []\<rparr> 4
      = (- 1, [], \<lparr>pending = [], damaged = True, past = 0, msg = ''invalid block type''\<rparr>)
   \<and> gzeof (zlib_on disk)
        \<lparr>pending = [], damaged = True, past = 0, msg = ''invalid block type''\<rparr> = 0
   \<and> gzerror (zlib_on disk)
        \<lparr>pending = [], damaged = True, past = 0, msg = ''invalid block type''\<rparr>
      = ''invalid block type''
   \<and> advance (zlib_on disk)
        \<lparr>elem = UChar, gz = \<lparr>pending = [], damaged = True, past = 0, msg = []\<rparr>,
         buffer_vec = [0, 0, 0, 0], counter_buffer = [], read = 0\<rparr>
      = Returned True
          \<lparr>elem = UChar,
           gz = \<lparr>pending = [], damaged = True, past = 0, msg = ''invalid block type''\<rparr>,
           buffer_vec = [0, 0, 0, 0], counter_buffer = [], read = 18446744073709551615\<rparr>"
  by (simp add: advance_def operator_call_def gzread_len_def zlib_on_def zlib_read_def
        store_def Let_def)

section \<open>The count after a library error\<close>

text \<open>
  While the library returns a count between 0 and the length it was asked for, the count
  the reader keeps is within the size of the buffer.
\<close>

lemma available_within_capacity:
  assumes "advance lib s = Returned again s' \<or> advance lib s = Thrown e s'"
    and "0 \<le> sint (fst (gzread lib (gz s) (gzread_len s)))"
    and "unat (fst (gzread lib (gz s) (gzread_len s))) \<le> unat (gzread_len s)"
  shows "unat (available s') \<le> length (buffer_vec s')"
proof -
  obtain r ws h where g: "gzread lib (gz s) (gzread_len s) = (r, ws, h)"
    by (cases "gzread lib (gz s) (gzread_len s)")
  with assms(2,3) gzread_len_le [of s]
  have "unat (scast r :: size_t) \<le> length (buffer_vec s)"
    by (simp add: unat_scast_nonneg)
  with assms(1) show ?thesis
    unfolding advance_def operator_call_unfold [OF g]
    by (auto simp: Let_def available_def length_stored split: option.splits if_splits)
qed

text \<open>
  A negative return value of \<^verbatim>\<open>gzread\<close> is assigned to the \<^verbatim>\<open>size_t\<close> member as it is:
  a \<^verbatim>\<open>GzipFileReader<unsigned char>\<close> returns true and keeps a count of \<open>2 ^ 64\<close> minus
  the absolute value, more than any buffer holds.
\<close>

lemma negative_return_kept_as_count:
  assumes "sint (fst (gzread lib (gz s) (gzread_len s))) < 0" and "elem s = UChar"
  shows "\<exists>s'. advance lib s = Returned True s'
     \<and> int (unat (available s')) = 2 ^ 64 + sint (fst (gzread lib (gz s) (gzread_len s)))"
proof -
  obtain r ws h where g: "gzread lib (gz s) (gzread_len s) = (r, ws, h)"
    by (cases "gzread lib (gz s) (gzread_len s)")
  with assms(1) have neg: "sint r < 0" by simp
  then have "r \<noteq> 0" by auto
  with assms(2) unat_scast_neg [OF neg] show ?thesis
    unfolding advance_def operator_call_unfold [OF g] g
    by (simp add: Let_def available_def)
qed

text \<open>
  C3, at the input where it fails: a \<^verbatim>\<open>GzipFileReader<unsigned char>\<close> of capacity 4 on a
  gzip file with damaged data. \<^verbatim>\<open>gzread\<close> returns -1, the call returns true, and
  \<^verbatim>\<open>available()\<close> is 18446744073709551615, not a count between 0 and 4.
\<close>

theorem available_after_library_error:
  "GzipFileReader 65536 (zlib_on disk) UChar ''bad.gz'' 4 =
      Inr \<lparr>elem = UChar, gz = \<lparr>pending = [], damaged = True, past = 0, msg = []\<rparr>,
           buffer_vec = [0, 0, 0, 0], counter_buffer = [], read = 0\<rparr>
   \<and> advance (zlib_on disk)
        \<lparr>elem = UChar, gz = \<lparr>pending = [], damaged = True, past = 0, msg = []\<rparr>,
         buffer_vec = [0, 0, 0, 0], counter_buffer = [], read = 0\<rparr>
      = Returned True
          \<lparr>elem = UChar,
           gz = \<lparr>pending = [], damaged = True, past = 0, msg = ''invalid block type''\<rparr>,
           buffer_vec = [0, 0, 0, 0], counter_buffer = [], read = 18446744073709551615\<rparr>
   \<and> available
        \<lparr>elem = UChar,
         gz = \<lparr>pending = [], damaged = True, past = 0, msg = ''invalid block type''\<rparr>,
         buffer_vec = [0, 0, 0, 0], counter_buffer = [], read = 18446744073709551615\<rparr>
      = 18446744073709551615
   \<and> \<not> (18446744073709551615 :: size_t) \<le> 4"
  by (simp add: GzipFileReader_def GZFile_def vector_of_size_def fits_max_size zlib_on_def
        disk_def open_file_def replicate_4 advance_def operator_call_def gzread_len_def zlib_read_def store_def Let_def
        available_def)

section \<open>The state after a call that throws\<close>

text \<open>
  Whatever the library is: when a call of \<^verbatim>\<open>operator()\<close> throws, the count it leaves is 0,
  it has copied nothing to \<^verbatim>\<open>counter_buffer\<close>, \<^verbatim>\<open>buffer_\<close> has its size, and the exception
  carries the library's message.
\<close>

lemma thrown_state:
  assumes "advance lib s = Thrown e s'"
  shows "available s' = 0 \<and> counter_buffer s' = counter_buffer s
     \<and> length (buffer_vec s') = length (buffer_vec s)
     \<and> e = Runtime_error (gzerror lib (gz s'))"
proof -
  obtain r ws h where g: "gzread lib (gz s) (gzread_len s) = (r, ws, h)"
    by (cases "gzread lib (gz s) (gzread_len s)")
  from assms show ?thesis
    unfolding advance_def operator_call_unfold [OF g]
    by (auto simp: Let_def available_def scast_eq_0 copy_n_0 length_stored
             split: option.splits if_splits)
qed









section \<open>Construction\<close>

text \<open>
  C5, as amended. Construction throws, at once and with the path in the message, whenever
  \<^verbatim>\<open>gzopen\<close> returns the null handle, as for a path that cannot be opened, and no reader
  exists then. The class looks at no header itself: whenever \<^verbatim>\<open>gzopen\<close> returns a handle,
  construction does not throw that error, and it gives a reader with that handle whenever
  the vectors can be allocated.
\<close>

theorem open_failure_raised_at_construction:
  "(gzopen lib path = None \<longrightarrow>
      GzipFileReader m lib b path buffer_size =
        Inl (Runtime_error (''failed to open file at '' @ [CHR 0x27] @ path @ [CHR 0x27])))
   \<and> (gzopen lib path = Some h \<longrightarrow>
        (\<forall>t. GzipFileReader m lib b path buffer_size \<noteq> Inl (Runtime_error t))
        \<and> (unat buffer_size \<le> max_size
             \<and> (if b = Char then 2 * unat buffer_size else unat buffer_size) \<le> m \<longrightarrow>
            (\<exists>s. GzipFileReader m lib b path buffer_size = Inr s \<and> gz s = h)))"
  by (auto simp: GzipFileReader_def GZFile_def vector_of_size_def split: if_splits)

text \<open>
  Witness for the amended C5: a path that is not on the disk, and the file of ten bytes
  with the default capacity.
\<close>

theorem open_failure_raised_at_construction_witness:
  "gzopen (zlib_on disk) ''missing.gz'' = None
   \<and> GzipFileReader 1048576 (zlib_on disk) Char ''missing.gz'' 65536 =
       Inl (Runtime_error (''failed to open file at '' @ [CHR 0x27] @ ''missing.gz'' @ [CHR 0x27]))
   \<and> gzopen (zlib_on disk) ''letters.gz''
       = Some \<lparr>pending = letters, damaged = False, past = 0, msg = []\<rparr>
   \<and> (\<exists>s. GzipFileReader 1048576 (zlib_on disk) Char ''letters.gz'' 65536 = Inr s
          \<and> gz s = \<lparr>pending = letters, damaged = False, past = 0, msg = []\<rparr>)"
proof -
  have n: "gzopen (zlib_on disk) ''missing.gz'' = None"
    by (simp add: zlib_on_def disk_def)
  have h: "gzopen (zlib_on disk) ''letters.gz''
      = Some \<lparr>pending = letters, damaged = False, past = 0, msg = []\<rparr>"
    by (simp add: zlib_on_def disk_def open_file_def)
  have fits: "unat (65536 :: size_t) \<le> max_size
      \<and> (if Char = Char then 2 * unat (65536 :: size_t) else unat (65536 :: size_t)) \<le> 1048576"
    by (simp add: max_size_def)
  from open_failure_raised_at_construction
         [where lib = "zlib_on disk" and path = "''missing.gz''" and m = 1048576 and b = Char
            and buffer_size = 65536, THEN conjunct1] n
  have a: "GzipFileReader 1048576 (zlib_on disk) Char ''missing.gz'' 65536 =
      Inl (Runtime_error (''failed to open file at '' @ [CHR 0x27] @ ''missing.gz'' @ [CHR 0x27]))"
    by blast
  from open_failure_raised_at_construction
         [where lib = "zlib_on disk" and path = "''letters.gz''" and m = 1048576 and b = Char
            and buffer_size = 65536
            and h = "\<lparr>pending = letters, damaged = False, past = 0, msg = []\<rparr>",
          THEN conjunct2]
       h fits
  have "\<exists>s. GzipFileReader 1048576 (zlib_on disk) Char ''letters.gz'' 65536 = Inr s
          \<and> gz s = \<lparr>pending = letters, damaged = False, past = 0, msg = []\<rparr>"
    by blast
  with n a h show ?thesis by blast
qed

text \<open>
  C5 as stated fails: the file \<^verbatim>\<open>notes.txt\<close> on the disk is not in gzip format, so it has
  no valid header of a compressed stream, yet the library opens it and construction gives
  a reader.
\<close>

theorem construction_without_header_counterexample:
  "disk ''notes.txt'' = Some (Not_gzip [0x68, 0x69])
   \<and> GzipFileReader 65536 (zlib_on disk) UChar ''notes.txt'' 4 =
       Inr \<lparr>elem = UChar,
            gz = \<lparr>pending = [0x68, 0x69], damaged = False, past = 0, msg = []\<rparr>,
            buffer_vec = [0, 0, 0, 0], counter_buffer = [], read = 0\<rparr>"
  by (simp add: GzipFileReader_def GZFile_def vector_of_size_def fits_max_size zlib_on_def
        disk_def open_file_def replicate_4)

text \<open>
  C8. Right after a successful construction \<^verbatim>\<open>available()\<close> is 0, and the bytes a caller
  may read at \<^verbatim>\<open>buffer()\<close> are none.
\<close>

theorem available_after_construction:
  "GzipFileReader m lib b path buffer_size = Inr s \<Longrightarrow> available s = 0 \<and> chunk s = Some []"
  by (auto simp: available_def chunk_def Let_def dest: GzipFileReader_Inr(5))

text \<open>Witness for C8: the reader of capacity 4 on the file of ten bytes.\<close>

theorem available_after_construction_witness:
  "GzipFileReader 65536 (zlib_on disk) UChar ''letters.gz'' 4 =
      Inr \<lparr>elem = UChar, gz = \<lparr>pending = letters, damaged = False, past = 0, msg = []\<rparr>,
           buffer_vec = [0, 0, 0, 0], counter_buffer = [], read = 0\<rparr>
   \<and> available
        \<lparr>elem = UChar, gz = \<lparr>pending = letters, damaged = False, past = 0, msg = []\<rparr>,
         buffer_vec = [0, 0, 0, 0], counter_buffer = [], read = 0\<rparr> = 0"
proof -
  have ctor: "GzipFileReader 65536 (zlib_on disk) UChar ''letters.gz'' 4 =
      Inr \<lparr>elem = UChar, gz = \<lparr>pending = letters, damaged = False, past = 0, msg = []\<rparr>,
           buffer_vec = [0, 0, 0, 0], counter_buffer = [], read = 0\<rparr>"
    by (simp add: GzipFileReader_def GZFile_def vector_of_size_def fits_max_size zlib_on_def
          disk_def open_file_def replicate_4)
  from available_after_construction [OF ctor] ctor show ?thesis by blast
qed

text \<open>
  C9, as amended. Construction throws exactly when \<^verbatim>\<open>gzopen\<close> returns the null handle or
  a vector cannot be allocated: \<^verbatim>\<open>buffer_size\<close> is beyond \<^verbatim>\<open>max_size()\<close>, or the free store
  does not hold it, twice for \<^verbatim>\<open>char\<close>. The capacity is not checked otherwise: with a
  \<^verbatim>\<open>buffer_size\<close> of 0 and a handle that opens, construction gives a reader whose vectors
  are empty, whatever the free store.
\<close>

theorem construction_fails_iff:
  "((\<exists>e. GzipFileReader m lib b path buffer_size = Inl e) \<longleftrightarrow>
       gzopen lib path = None \<or> max_size < unat buffer_size
       \<or> m < (if b = Char then 2 * unat buffer_size else unat buffer_size))
   \<and> (gzopen lib path = Some h \<longrightarrow>
        GzipFileReader m lib b path 0 =
          Inr \<lparr>elem = b, gz = h, buffer_vec = [], counter_buffer = [], read = 0\<rparr>)"
  by (auto simp: GzipFileReader_def GZFile_def vector_of_size_def split: option.splits if_splits)

text \<open>
  Witness for the amended C9: capacity 0 on the file of ten bytes, for a \<^verbatim>\<open>char\<close> reader
  and an empty free store.
\<close>

theorem construction_fails_iff_witness:
  "gzopen (zlib_on disk) ''letters.gz''
      = Some \<lparr>pending = letters, damaged = False, past = 0, msg = []\<rparr>
   \<and> GzipFileReader 0 (zlib_on disk) Char ''letters.gz'' 0 =
       Inr \<lparr>elem = Char, gz = \<lparr>pending = letters, damaged = False, past = 0, msg = []\<rparr>,
            buffer_vec = [], counter_buffer = [], read = 0\<rparr>"
proof -
  have h: "gzopen (zlib_on disk) ''letters.gz''
      = Some \<lparr>pending = letters, damaged = False, past = 0, msg = []\<rparr>"
    by (simp add: zlib_on_def disk_def open_file_def)
  from construction_fails_iff
         [where m = 0 and lib = "zlib_on disk" and b = Char and path = "''letters.gz''"
            and h = "\<lparr>pending = letters, damaged = False, past = 0, msg = []\<rparr>",
          THEN conjunct2] h
  show ?thesis by blast
qed

text \<open>
  C9 as stated fails: the file of ten bytes opens, and with a \<^verbatim>\<open>buffer_size\<close> of
  18446744073709551615, beyond \<^verbatim>\<open>max_size()\<close>, construction throws all the same, whatever
  the free store: \<^verbatim>\<open>buffer_(buffer_size)\<close> throws \<^verbatim>\<open>std::length_error\<close>.
\<close>

theorem construction_fails_after_open_counterexample:
  "gzopen (zlib_on disk) ''letters.gz''
      = Some \<lparr>pending = letters, damaged = False, past = 0, msg = []\<rparr>
   \<and> GzipFileReader 18446744073709551616 (zlib_on disk) UChar ''letters.gz''
        18446744073709551615 = Inl Length_error"
  by (simp add: GzipFileReader_def GZFile_def vector_of_size_def max_size_def zlib_on_def
        disk_def open_file_def)

section \<open>The second buffer\<close>

text \<open>
  C6. \<^verbatim>\<open>counter_buffer\<close> has the size of \<^verbatim>\<open>buffer_\<close> when \<^verbatim>\<open>B\<close> is \<^verbatim>\<open>char\<close> and no elements
  otherwise, from construction on. For \<^verbatim>\<open>char\<close>, every call of \<^verbatim>\<open>operator()\<close> with
  defined behaviour copies exactly \<^verbatim>\<open>available()\<close> bytes, the number produced, from the
  start of \<^verbatim>\<open>buffer_\<close> to the start of \<^verbatim>\<open>counter_buffer\<close> and leaves the rest of it as it
  was, and \<^verbatim>\<open>buffer()\<close> points to \<^verbatim>\<open>counter_buffer\<close>, whose elements read as signed values
  of the bytes. For \<^verbatim>\<open>unsigned char\<close>, \<^verbatim>\<open>buffer()\<close> points to \<^verbatim>\<open>buffer_\<close>.
\<close>

theorem secondary_buffer_copy:
  "(GzipFileReader m lib b path buffer_size = Inr s0 \<longrightarrow>
      length (counter_buffer s0) = (if b = Char then unat buffer_size else 0)
      \<and> buffer s0 = (if b = Char then AsChar (counter_buffer s0) else AsUChar (buffer_vec s0)))
   \<and> (advance lib s = Returned again s' \<or> advance lib s = Thrown e s' \<longrightarrow>
        elem s' = elem s \<and> length (counter_buffer s') = length (counter_buffer s)
        \<and> (elem s = Char \<longrightarrow>
              unat (available s') \<le> length (counter_buffer s)
              \<and> take (unat (available s')) (counter_buffer s')
                  = take (unat (available s')) (buffer_vec s')
              \<and> drop (unat (available s')) (counter_buffer s')
                  = drop (unat (available s')) (counter_buffer s)
              \<and> buffer s' = AsChar (counter_buffer s')
              \<and> take (unat (available s')) (values_of (buffer s'))
                  = map sint (take (unat (available s')) (buffer_vec s')))
        \<and> (elem s = UChar \<longrightarrow>
              counter_buffer s' = counter_buffer s \<and> buffer s' = AsUChar (buffer_vec s')))"
proof -
  obtain r ws h where g: "gzread lib (gz s) (gzread_len s) = (r, ws, h)"
    by (cases "gzread lib (gz s) (gzread_len s)")
  have ctor: "GzipFileReader m lib b path buffer_size = Inr s0 \<longrightarrow>
      length (counter_buffer s0) = (if b = Char then unat buffer_size else 0)
      \<and> buffer s0 = (if b = Char then AsChar (counter_buffer s0) else AsUChar (buffer_vec s0))"
    by (auto simp: buffer_def dest: GzipFileReader_Inr)
  have step: "advance lib s = Returned again s' \<or> advance lib s = Thrown e s' \<longrightarrow>
        elem s' = elem s \<and> length (counter_buffer s') = length (counter_buffer s)
        \<and> (elem s = Char \<longrightarrow>
              unat (available s') \<le> length (counter_buffer s)
              \<and> take (unat (available s')) (counter_buffer s')
                  = take (unat (available s')) (buffer_vec s')
              \<and> drop (unat (available s')) (counter_buffer s')
                  = drop (unat (available s')) (counter_buffer s)
              \<and> buffer s' = AsChar (counter_buffer s')
              \<and> take (unat (available s')) (values_of (buffer s'))
                  = map sint (take (unat (available s')) (buffer_vec s')))
        \<and> (elem s = UChar \<longrightarrow>
              counter_buffer s' = counter_buffer s \<and> buffer s' = AsUChar (buffer_vec s'))"
    unfolding advance_def operator_call_unfold [OF g]
    by (auto simp: Let_def available_def buffer_def copy_n_def take_map
             split: option.splits if_splits)
  from ctor step show ?thesis by blast
qed

text \<open>
  Witness for C6: a \<^verbatim>\<open>GzipFileReader<char>\<close> of capacity 4 on a file of the two bytes
  0xC3 0x28. The first call copies two bytes; through \<^verbatim>\<open>buffer()\<close> they read -61 and 40.
\<close>

theorem secondary_buffer_copy_witness:
  "advance (scripted (\<lambda>p. Some [(2, [0xC3, 0x28], 1, [])]))
     \<lparr>elem = Char, gz = \<lparr>replies = [(2, [0xC3, 0x28], 1, [])], eof_now = 0, error_now = []\<rparr>,
      buffer_vec = [0, 0, 0, 0], counter_buffer = [7, 7, 7, 7], read = 0\<rparr>
   = Returned True
       \<lparr>elem = Char, gz = \<lparr>replies = [], eof_now = 1, error_now = []\<rparr>,
        buffer_vec = [0xC3, 0x28, 0, 0], counter_buffer = [0xC3, 0x28, 7, 7], read = 2\<rparr>
   \<and> take 2 (values_of (buffer
        \<lparr>elem = Char, gz = \<lparr>replies = [], eof_now = 1, error_now = []\<rparr>,
         buffer_vec = [0xC3, 0x28, 0, 0], counter_buffer = [0xC3, 0x28, 7, 7], read = 2\<rparr>))
      = [- 61, 40]"
proof -
  let ?lib = "scripted (\<lambda>p. Some [(2, [0xC3, 0x28], 1, [])])"
  let ?s = "\<lparr>elem = Char,
             gz = \<lparr>replies = [(2, [0xC3, 0x28], 1, [])], eof_now = 0, error_now = []\<rparr>,
             buffer_vec = [0, 0, 0, 0 :: byte], counter_buffer = [7, 7, 7, 7 :: byte],
             read = 0 :: size_t\<rparr>"
  let ?s' = "\<lparr>elem = Char, gz = \<lparr>replies = [], eof_now = 1, error_now = []\<rparr>,
              buffer_vec = [0xC3, 0x28, 0, 0 :: byte],
              counter_buffer = [0xC3, 0x28, 7, 7 :: byte], read = 2 :: size_t\<rparr>"
  have t: "advance ?lib ?s = Returned True ?s'"
    by (simp add: advance_def operator_call_def gzread_len_def scripted_def scripted_read_def
          store_def copy_n_def Let_def)
  have a: "unat (available ?s') = 2"
    by (simp add: available_def)
  have el: "elem ?s = Char"
    by simp
  from secondary_buffer_copy [where lib = ?lib and s = ?s and s' = ?s' and again = True,
         THEN conjunct2, THEN mp, OF disjI1 [OF t]] el
  have "take (unat (available ?s')) (values_of (buffer ?s'))
      = map sint (take (unat (available ?s')) (buffer_vec ?s'))"
    by blast
  then have "take 2 (values_of (buffer ?s')) = [- 61, 40]"
    unfolding a by simp
  with t show ?thesis by blast
qed

section \<open>The order of the library calls\<close>

text \<open>
  C7. A call of \<^verbatim>\<open>operator()\<close> asks \<^verbatim>\<open>gzeof\<close> exactly when \<^verbatim>\<open>gzread\<close> returned 0: never on
  a call whose read count is not zero. When the call returns or throws, that is exactly
  when \<^verbatim>\<open>available()\<close> is 0 afterwards.
\<close>

theorem eof_consulted_only_on_zero_read:
  "(Call_gzeof \<in> set (advance_calls lib s)) = (fst (gzread lib (gz s) (gzread_len s)) = 0)
   \<and> (advance lib s = Returned again s' \<or> advance lib s = Thrown e s' \<longrightarrow>
        (Call_gzeof \<in> set (advance_calls lib s)) = (available s' = 0))"
proof -
  obtain r ws h where g: "gzread lib (gz s) (gzread_len s) = (r, ws, h)"
    by (cases "gzread lib (gz s) (gzread_len s)")
  show ?thesis
    unfolding advance_calls_def advance_def operator_call_unfold [OF g] g
    by (auto simp: Let_def available_def scast_eq_0 copy_n_0 split: option.splits if_splits)
qed

text \<open>
  Witness for C7: the first call on the file of ten bytes reads four of them and makes one
  library call, the read.
\<close>

theorem eof_consulted_only_on_zero_read_witness:
  "advance (zlib_on disk)
     \<lparr>elem = UChar, gz = \<lparr>pending = letters, damaged = False, past = 0, msg = []\<rparr>,
      buffer_vec = [0, 0, 0, 0], counter_buffer = [], read = 0\<rparr>
   = Returned True
       \<lparr>elem = UChar,
        gz = \<lparr>pending = [0x45, 0x46, 0x47, 0x48, 0x49, 0x4A], damaged = False, past = 0,
              msg = []\<rparr>,
        buffer_vec = [0x41, 0x42, 0x43, 0x44], counter_buffer = [], read = 4\<rparr>
   \<and> Call_gzeof \<notin> set (advance_calls (zlib_on disk)
        \<lparr>elem = UChar, gz = \<lparr>pending = letters, damaged = False, past = 0, msg = []\<rparr>,
         buffer_vec = [0, 0, 0, 0], counter_buffer = [], read = 0\<rparr>)"
proof -
  let ?s = "\<lparr>elem = UChar, gz = \<lparr>pending = letters, damaged = False, past = 0, msg = []\<rparr>,
             buffer_vec = [0, 0, 0, 0 :: byte], counter_buffer = [], read = 0 :: size_t\<rparr>"
  let ?s' = "\<lparr>elem = UChar,
              gz = \<lparr>pending = [0x45, 0x46, 0x47, 0x48, 0x49, 0x4A], damaged = False,
                    past = 0, msg = []\<rparr>,
              buffer_vec = [0x41, 0x42, 0x43, 0x44 :: byte], counter_buffer = [],
              read = 4 :: size_t\<rparr>"
  have t: "advance (zlib_on disk) ?s = Returned True ?s'"
    by (simp add: advance_def operator_call_def gzread_len_def zlib_on_def zlib_read_def
          letters_def store_def Let_def)
  from eof_consulted_only_on_zero_read
         [where lib = "zlib_on disk" and s = ?s and s' = ?s' and again = True,
          THEN conjunct2, THEN mp, OF disjI1 [OF t]]
  have "(Call_gzeof \<in> set (advance_calls (zlib_on disk) ?s)) = (available ?s' = 0)" .
  then have "Call_gzeof \<notin> set (advance_calls (zlib_on disk) ?s)"
    by (simp add: available_def)
  with t show ?thesis by blast
qed

section \<open>The observers\<close>

lemma observe_fixed: "observe qs s = (map (\<lambda>q. fst (ask q s)) qs, s)"
proof (induction qs)
  case Nil
  show ?case by simp
next
  case (Cons q qs)
  then show ?case by (cases q) simp_all
qed

text \<open>
  C10. \<^verbatim>\<open>buffer()\<close> and \<^verbatim>\<open>available()\<close> change nothing: after any sequence of calls of the
  two, in any order, the reader is as it was, and every call has returned the pointer and
  the count that the reader had before the sequence.
\<close>

theorem observers_are_pure:
  "snd (observe qs s) = s
   \<and> fst (observe qs s)
       = map (\<lambda>q. case q of Buffer \<Rightarrow> Pointer (buffer s) | Available \<Rightarrow> Count (available s)) qs"
proof -
  have "(\<lambda>q. fst (ask q s))
      = (\<lambda>q. case q of Buffer \<Rightarrow> Pointer (buffer s) | Available \<Rightarrow> Count (available s))"
    by (rule ext) (simp split: query.split)
  then show ?thesis by (simp add: observe_fixed)
qed

text \<open>An instance of C10: three calls on the reader that holds the first four bytes.\<close>

theorem observers_are_pure_witness:
  "observe [Buffer, Available, Buffer]
     \<lparr>elem = UChar, gz = (), buffer_vec = [0x41, 0x42, 0x43, 0x44], counter_buffer = [],
      read = 4\<rparr>
   = ([Pointer (AsUChar [0x41, 0x42, 0x43, 0x44]), Count 4,
       Pointer (AsUChar [0x41, 0x42, 0x43, 0x44])],
      \<lparr>elem = UChar, gz = (), buffer_vec = [0x41, 0x42, 0x43, 0x44], counter_buffer = [],
       read = 4\<rparr>)"
proof -
  let ?s = "\<lparr>elem = UChar, gz = (), buffer_vec = [0x41, 0x42, 0x43, 0x44 :: byte],
             counter_buffer = [], read = 4 :: size_t\<rparr>"
  from observers_are_pure [of "[Buffer, Available, Buffer]" ?s]
  have "observe [Buffer, Available, Buffer] ?s
      = ([Pointer (buffer ?s), Count (available ?s), Pointer (buffer ?s)], ?s)"
    by (simp add: prod_eq_iff)
  then show ?thesis by (simp add: buffer_def available_def)
qed

end
